theory Spec2Isabelle
  imports Main "HOL-Library.Char_ord" "HOL-Library.List_Lexorder"
    "HOL-Library.Product_Lexorder" "HOL-Library.Multiset" "HOL-Library.AList"
begin

section \<open>Python values and exceptions\<close>

text \<open>
  The module under study is \<^verbatim>\<open>homecredit/data/utils_old.py\<close>. Python strings are modelled
  as HOL strings, one \<^typ>\<open>char\<close> per code point below 256; the order on strings is the
  lexicographic order on code points, which is the order Python compares strings by.
  Every exception the module can raise is a value of \<open>py_error\<close>, and a function that can
  raise returns \<open>py_error + 'a\<close> with \<open>Inl\<close> for the exception.
\<close>

datatype py_error = IndexError | ValueError | KeyError | OSError

text \<open>\<^verbatim>\<open>xs[0]\<close> and \<^verbatim>\<open>xs[-1]\<close>: an empty list raises \<^verbatim>\<open>IndexError\<close>.\<close>

definition index_first :: "'a list \<Rightarrow> py_error + 'a" where
  "index_first xs = (case xs of [] \<Rightarrow> Inl IndexError | x # _ \<Rightarrow> Inr x)"

definition index_last :: "'a list \<Rightarrow> py_error + 'a" where
  "index_last xs = (if xs = [] then Inl IndexError else Inr (last xs))"

text \<open>
  \<^verbatim>\<open>s.split(sep)\<close> for a one-character separator: the pieces between the occurrences of
  the separator, empty pieces included; the result is never empty.
\<close>

fun py_split :: "char \<Rightarrow> string \<Rightarrow> string list" where
  "py_split sep [] = [[]]"
| "py_split sep (c # cs) =
     (if c = sep then [] # py_split sep cs
      else (case py_split sep cs of [] \<Rightarrow> [[c]] | w # ws \<Rightarrow> (c # w) # ws))"

text \<open>
  \<^verbatim>\<open>int(s)\<close> for a string: surrounding whitespace is dropped (tab, line feed, vertical tab,
  form feed, carriage return, space, and the two whitespace code points of the upper half,
  next line and no-break space), one sign is accepted, and what is left must be a non-empty
  run of decimal digits, of at most \<open>int_max_str_digits\<close> digits (the interpreter's default
  limit). Anything else raises \<^verbatim>\<open>ValueError\<close>. Digit-group underscores are not modelled:
  \<open>sort_paths\<close> only converts a piece of a split at underscores.
\<close>

definition int_space :: "char \<Rightarrow> bool" where
  "int_space c = (c \<in> set [CHR 0x09, CHR 0x0A, CHR 0x0B, CHR 0x0C, CHR 0x0D, CHR '' '',
     CHR 0x85, CHR 0xA0])"

definition int_strip :: "string \<Rightarrow> string" where
  "int_strip s = rev (dropWhile int_space (rev (dropWhile int_space s)))"

definition is_digit :: "char \<Rightarrow> bool" where
  "is_digit c = (c \<in> set ''0123456789'')"

definition digit_value :: "char \<Rightarrow> int" where
  "digit_value c = int (of_char c) - 48"

definition dec_value :: "string \<Rightarrow> int" where
  "dec_value ds = fold (\<lambda>c n. 10 * n + digit_value c) ds 0"

definition int_max_str_digits :: nat where
  "int_max_str_digits = 4300"

definition int_digits :: "string \<Rightarrow> py_error + int" where
  "int_digits ds =
     (if ds = [] \<or> \<not> list_all is_digit ds then Inl ValueError
      else if length ds > int_max_str_digits then Inl ValueError
      else Inr (dec_value ds))"

definition py_int :: "string \<Rightarrow> py_error + int" where
  "py_int s =
     (case int_strip s of
        [] \<Rightarrow> Inl ValueError
      | c # cs \<Rightarrow>
          if c = CHR ''-'' then (case int_digits cs of Inl e \<Rightarrow> Inl e | Inr n \<Rightarrow> Inr (- n))
          else if c = CHR ''+'' then int_digits cs
          else int_digits (c # cs))"

section \<open>sort\_paths\<close>

text \<open>
  \<^verbatim>\<open>int(path.split("_")[-1].split(".")[0])\<close>: the piece after the last underscore, cut at
  its first dot, converted to an integer.
\<close>

definition path_suffix :: "string \<Rightarrow> py_error + string" where
  "path_suffix path =
     (case index_last (py_split CHR ''_'' path) of
        Inl e \<Rightarrow> Inl e
      | Inr seg \<Rightarrow> index_first (py_split CHR ''.'' seg))"

definition path_num :: "string \<Rightarrow> py_error + int" where
  "path_num path = (case path_suffix path of Inl e \<Rightarrow> Inl e | Inr s \<Rightarrow> py_int s)"

text \<open>The list comprehension over the paths: the first conversion that fails raises.\<close>

fun paths_nums_of :: "string list \<Rightarrow> py_error + int list" where
  "paths_nums_of [] = Inr []"
| "paths_nums_of (path # paths) =
     (case path_num path of
        Inl e \<Rightarrow> Inl e
      | Inr n \<Rightarrow> (case paths_nums_of paths of Inl e \<Rightarrow> Inl e | Inr ns \<Rightarrow> Inr (n # ns)))"

text \<open>
  \<^verbatim>\<open>sorted(zip(paths_nums, paths))\<close> orders the pairs by number and then by path, a total
  order, so the stable sort of Python and \<^const>\<open>sort\<close> agree.
\<close>

definition sort_paths :: "string list \<Rightarrow> py_error + string list" where
  "sort_paths paths =
     (if length paths = 1 then Inr paths
      else (case paths_nums_of paths of
              Inl e \<Rightarrow> Inl e
            | Inr paths_nums \<Rightarrow> Inr (map snd (sort (zip paths_nums paths)))))"

section \<open>set\_dtypes\<close>

text \<open>
  The constants \<^verbatim>\<open>COL_DATE\<close>, \<^verbatim>\<open>COL_ID\<close>, \<^verbatim>\<open>COL_WEEK\<close>, \<^verbatim>\<open>PATH_DATA\<close> and
  \<^verbatim>\<open>PATH_FEATURES\<close> are imported from the package configuration, which is not part of
  the module; they are parameters of the model.
\<close>

record config =
  COL_DATE :: string
  COL_ID :: string
  COL_WEEK :: string
  PATH_DATA :: string
  PATH_FEATURES :: string

text \<open>
  A column dtype: the four polars dtypes the module assigns, any other dtype by its name,
  and Python's \<^verbatim>\<open>None\<close>. A schema is an ordered dictionary from column names to dtypes.
\<close>

datatype dtype = Int64 | Date | Float64 | String | OtherDtype string | PyNone

type_synonym schema = "(string \<times> dtype) list"

text \<open>
  One iteration of the loop of \<^verbatim>\<open>set_dtypes\<close>, for the column \<open>col\<close>. The branches are
  those of the source, in its order; \<^verbatim>\<open>col[-1]\<close> raises \<^verbatim>\<open>IndexError\<close> on the empty name,
  and the branch for \<^verbatim>\<open>"T"\<close> and \<^verbatim>\<open>"L"\<close> and the missing \<^verbatim>\<open>else\<close> assign nothing.
\<close>

definition set_dtypes_step :: "config \<Rightarrow> string \<Rightarrow> schema \<Rightarrow> py_error + schema" where
  "set_dtypes_step cfg col schema =
     (if col \<in> set [COL_ID cfg, COL_WEEK cfg, ''num_group1'', ''num_group2'']
        then Inr (AList.update col Int64 schema)
      else if col \<in> set [COL_DATE cfg] then Inr (AList.update col Date schema)
      else if col = [] then Inl IndexError
      else if last col \<in> set [CHR ''P'', CHR ''A''] then Inr (AList.update col Float64 schema)
      else if last col \<in> set [CHR ''M''] then Inr (AList.update col String schema)
      else if last col \<in> set [CHR ''D''] then Inr (AList.update col Date schema)
      else if last col \<in> set [CHR ''T'', CHR ''L''] then Inr schema
      else Inr schema)"

text \<open>
  The loop assigns into the dictionary it iterates over. The model keeps the dictionary as
  it stands when the loop stops, together with the exception that stopped it, if any.
\<close>

fun set_dtypes_loop :: "config \<Rightarrow> string list \<Rightarrow> schema \<Rightarrow> schema \<times> py_error option" where
  "set_dtypes_loop cfg [] schema = (schema, None)"
| "set_dtypes_loop cfg (col # cols) schema =
     (case set_dtypes_step cfg col schema of
        Inl e \<Rightarrow> (schema, Some e)
      | Inr schema' \<Rightarrow> set_dtypes_loop cfg cols schema')"

definition set_dtypes_run :: "config \<Rightarrow> schema \<Rightarrow> schema \<times> py_error option" where
  "set_dtypes_run cfg schema = set_dtypes_loop cfg (map fst schema) schema"

text \<open>The call itself: the schema on return, or the exception.\<close>

definition set_dtypes :: "config \<Rightarrow> schema \<Rightarrow> py_error + schema" where
  "set_dtypes cfg schema =
     (case set_dtypes_run cfg schema of (schema', None) \<Rightarrow> Inr schema' | (_, Some e) \<Rightarrow> Inl e)"

text \<open>A configuration for concrete runs.\<close>

definition example_config :: config where
  "example_config = \<lparr>COL_DATE = ''date_decision'', COL_ID = ''id'', COL_WEEK = ''WEEK_NUM'',
     PATH_DATA = ''data'', PATH_FEATURES = ''features''\<rparr>"

section \<open>gen\_file\_path\<close>

definition gen_file_path :: "config \<Rightarrow> string \<Rightarrow> string \<Rightarrow> string" where
  "gen_file_path cfg file_name mode =
     PATH_DATA cfg @ ''/parquet_files/'' @ mode @ ''/'' @ mode @ ''_'' @ file_name @ ''.parquet''"

section \<open>write\_data\_props\<close>

text \<open>
  \<^verbatim>\<open>write_data_props\<close> calls \<^verbatim>\<open>utils.gen_file_path\<close>, \<^verbatim>\<open>utils.sort_paths\<close> and
  \<^verbatim>\<open>utils.set_dtypes\<close>, of the sibling module \<^verbatim>\<open>utils\<close>.
\<close>

text \<open>
  Modelled from the spec: the module \<^verbatim>\<open>utils\<close> is missing from the sources. The spec
  describes one \<^verbatim>\<open>gen_file_path(name, mode)\<close>, a deterministic path string; the helper is
  taken to be the function of that name of this module.
\<close>

definition utils_gen_file_path :: "config \<Rightarrow> string \<Rightarrow> string \<Rightarrow> string" where
  "utils_gen_file_path = gen_file_path"

text \<open>
  Modelled from the spec: \<^verbatim>\<open>utils.sort_paths\<close> is missing from the sources. The spec
  describes one \<^verbatim>\<open>sort_paths(paths)\<close>, which sorts multi-part file names by trailing numeric
  suffix, returns its input unchanged if singleton and fails if the suffix is non-numeric;
  the helper is taken to be the function of that name of this module.
\<close>

definition utils_sort_paths :: "string list \<Rightarrow> py_error + string list" where
  "utils_sort_paths = sort_paths"

text \<open>
  Modelled from the spec: \<^verbatim>\<open>utils.set_dtypes\<close> is missing from the sources. The spec
  describes one \<^verbatim>\<open>set_dtypes(schema)\<close>, which returns a column to dtype mapping with the
  identity, week and group columns forced to integer, the known date column forced to date,
  else by suffix, unrecognized suffixes left unchanged; the helper is taken to be the
  function of that name of this module.
\<close>

definition utils_set_dtypes :: "config \<Rightarrow> schema \<Rightarrow> py_error + schema" where
  "utils_set_dtypes = set_dtypes"

text \<open>Sequencing of calls that can raise: the first exception is the result.\<close>

definition and_then :: "py_error + 'a \<Rightarrow> ('a \<Rightarrow> py_error + 'b) \<Rightarrow> py_error + 'b" where
  "and_then m f = (case m of Inl e \<Rightarrow> Inl e | Inr x \<Rightarrow> f x)"

text \<open>A \<^verbatim>\<open>for\<close> loop whose body updates a state and can raise.\<close>

fun for_each :: "('a \<Rightarrow> 's \<Rightarrow> py_error + 's) \<Rightarrow> 'a list \<Rightarrow> 's \<Rightarrow> py_error + 's" where
  "for_each body [] s = Inr s"
| "for_each body (x # xs) s =
     (case body x s of Inl e \<Rightarrow> Inl e | Inr s' \<Rightarrow> for_each body xs s')"

text \<open>
  Dictionaries are association lists in insertion order. \<^verbatim>\<open>d[k]\<close> raises \<^verbatim>\<open>KeyError\<close> on
  a missing key, \<^verbatim>\<open>d[k] = v\<close> is \<^const>\<open>AList.update\<close>, and \<^verbatim>\<open>d.update(e)\<close> stores the
  items of \<open>e\<close> one after the other.
\<close>

definition dict_get :: "('k \<times> 'v) list \<Rightarrow> 'k \<Rightarrow> py_error + 'v" where
  "dict_get d k = (case map_of d k of None \<Rightarrow> Inl KeyError | Some v \<Rightarrow> Inr v)"

definition dict_update :: "('k \<times> 'v) list \<Rightarrow> ('k \<times> 'v) list \<Rightarrow> ('k \<times> 'v) list" where
  "dict_update d e = fold (\<lambda>(k, v). AList.update k v) e d"

text \<open>
  A row of the features table, as \<^verbatim>\<open>write_data_props\<close> holds it after
  \<^verbatim>\<open>fillna("")\<close> and \<^verbatim>\<open>set_index("feature")\<close>: the index label and the four columns
  that are read. A missing \<^verbatim>\<open>date_col\<close> cell is \<open>None\<close> (it holds \<^verbatim>\<open>""\<close>, which is not 1).
\<close>

record feature_row =
  feature :: string
  source_group :: string
  new_name :: string
  agg :: string
  date_col :: "int option"

text \<open>
  \<^verbatim>\<open>frame.loc[label][column]\<close>, used where a truth value is taken of the result at once.
  One row with the label gives the cell. Several rows give a Series, whose truth value
  raises \<^verbatim>\<open>ValueError\<close>; no row raises \<^verbatim>\<open>KeyError\<close>.
\<close>

definition loc_cell :: "feature_row list \<Rightarrow> string \<Rightarrow> (feature_row \<Rightarrow> 'a) \<Rightarrow> py_error + 'a" where
  "loc_cell frame label column =
     (case filter (\<lambda>r. feature r = label) frame of
        [] \<Rightarrow> Inl KeyError
      | [r] \<Rightarrow> Inr (column r)
      | _ \<Rightarrow> Inl ValueError)"

text \<open>
  A value of a data frame column, and a data frame: its columns in order, each with its
  name, its dtype and its values. \<^verbatim>\<open>unique()\<close> keeps one occurrence of every value.
\<close>

datatype cell = Null | Str string | Num int | Flag bool

type_synonym dataframe = "(string \<times> dtype \<times> cell list) list"

definition df_schema :: "dataframe \<Rightarrow> schema" where
  "df_schema df = map (\<lambda>(name, dtype, vals). (name, dtype)) df"

definition df_columns :: "dataframe \<Rightarrow> string list" where
  "df_columns df = map fst df"

definition df_column :: "dataframe \<Rightarrow> string \<Rightarrow> py_error + cell list" where
  "df_column df col = (case map_of df col of None \<Rightarrow> Inl KeyError | Some (dtype, vals) \<Rightarrow> Inr vals)"

definition unique :: "cell list \<Rightarrow> cell list" where
  "unique vals = remdups vals"

text \<open>
  What the function reads from outside: the file system through \<^verbatim>\<open>glob\<close>, the parquet
  files, the features table, and whether the pickle file can be opened for writing.
\<close>

record world =
  glob :: "string \<Rightarrow> string list"
  read_parquet :: "string \<Rightarrow> py_error + dataframe"
  read_csv :: "string \<Rightarrow> py_error + feature_row list"
  open_wb :: "string \<Rightarrow> py_error option"

definition os_path_join :: "string \<Rightarrow> string \<Rightarrow> string" where
  "os_path_join a b =
     (if b \<noteq> [] \<and> hd b = CHR ''/'' then b
      else if a = [] \<or> last a = CHR ''/'' then a @ b
      else a @ ''/'' @ b)"

text \<open>
  The entry of \<^verbatim>\<open>structure_dict\<close> for one file-name pattern. Its \<^verbatim>\<open>"paths"\<close> value is
  created as \<^verbatim>\<open>{"train": {}, "test": []}\<close>.
\<close>

datatype py_container = EmptyDict | PathList "string list"

record paths_entry =
  train :: py_container
  test :: py_container

record file_structure =
  s_paths :: paths_entry
  s_schema :: schema
  s_columns_map :: "(string \<times> string option) list"

definition new_file_structure :: file_structure where
  "new_file_structure =
     \<lparr>s_paths = \<lparr>train = EmptyDict, test = PathList []\<rparr>, s_schema = [], s_columns_map = []\<rparr>"

text \<open>The variables of the loop over the columns of one sample file.\<close>

record col_state =
  mapping :: "(string \<times> string option) list"
  cols_to_incl :: "string list"
  cols_cat_i :: "(string \<times> cell list) list"
  cols_dtypes :: "(string \<times> dtype) list"

text \<open>
  The body of \<^verbatim>\<open>for col in df.columns\<close>. The rename is looked up in the rows of the
  group, the \<^verbatim>\<open>agg\<close> marker in the whole table. \<open>target\<close> is \<^verbatim>\<open>mapping[col]\<close>, which
  either branch has just assigned.
\<close>

definition column_step ::
  "feature_row list \<Rightarrow> feature_row list \<Rightarrow> dataframe \<Rightarrow> schema \<Rightarrow> string \<Rightarrow> col_state
     \<Rightarrow> py_error + col_state" where
  "column_step features_df features_sg_df df schema col st =
     and_then
       (if col \<in> set (map feature features_sg_df) then
          and_then (loc_cell features_sg_df col new_name) (\<lambda>col_new.
          let target = (if col_new \<noteq> [] then col_new else col);
              st1 = st\<lparr>mapping := AList.update col (Some target) (mapping st)\<rparr> in
          and_then (loc_cell features_df col agg) (\<lambda>a.
          if a = ''dummy'' then
            and_then (df_column df col) (\<lambda>vals.
            let col_vals = filter (\<lambda>i. i \<noteq> Null \<and> i \<noteq> Str []) (unique vals) in
            Inr (target, st1\<lparr>cols_cat_i := AList.update col col_vals (cols_cat_i st1)\<rparr>))
          else Inr (target, st1)))
        else Inr (col, st\<lparr>mapping := AList.update col (Some col) (mapping st)\<rparr>))
       (\<lambda>(target, st2).
     let st3 = st2\<lparr>cols_to_incl := cols_to_incl st2 @ [target]\<rparr> in
     and_then (dict_get schema col) (\<lambda>dtype.
     Inr (st3\<lparr>cols_dtypes := AList.update col dtype (cols_dtypes st3)\<rparr>)))"

definition columns_loop ::
  "feature_row list \<Rightarrow> feature_row list \<Rightarrow> dataframe \<Rightarrow> schema \<Rightarrow> py_error + col_state" where
  "columns_loop features_df features_sg_df df schema =
     for_each (column_step features_df features_sg_df df schema) (df_columns df)
       \<lparr>mapping = fold (\<lambda>col d. AList.update col None d) (df_columns df) [],
        cols_to_incl = [], cols_cat_i = [], cols_dtypes = []\<rparr>"

text \<open>
  The sample file of a pattern: in mode \<^verbatim>\<open>"train"\<close> the paths are globbed and sorted and the
  first one is read; \<^verbatim>\<open>paths_i[0]\<close> raises \<^verbatim>\<open>IndexError\<close> when there is none.
\<close>

definition read_sample :: "world \<Rightarrow> config \<Rightarrow> string \<Rightarrow> py_error + dataframe" where
  "read_sample w cfg file_name =
     and_then (utils_sort_paths (glob w (utils_gen_file_path cfg file_name ''train''))) (\<lambda>paths_i.
     and_then (index_first paths_i) (\<lambda>path. read_parquet w path))"

text \<open>The variables of the loop over the patterns of one group.\<close>

record group_state =
  structure_dict :: "(string \<times> file_structure) list"
  columns :: "string list"
  cols_cat :: "(string \<times> cell list) list"
  columns_dtypes :: "(string \<times> dtype) list"

text \<open>
  The body of \<^verbatim>\<open>for file_name in file_names\<close>, with the loop over the two modes written
  out: mode \<^verbatim>\<open>"train"\<close> reads the sample file and stores its schema, mode \<^verbatim>\<open>"test"\<close> only
  globs and sorts. The sorted paths are stored nowhere.
\<close>

definition file_step ::
  "world \<Rightarrow> config \<Rightarrow> feature_row list \<Rightarrow> feature_row list \<Rightarrow> string \<Rightarrow> group_state
     \<Rightarrow> py_error + group_state" where
  "file_step w cfg features_df features_sg_df file_name st =
     and_then (read_sample w cfg file_name) (\<lambda>df.
     and_then (utils_set_dtypes cfg (df_schema df)) (\<lambda>schema.
     and_then (dict_get (structure_dict st) file_name) (\<lambda>entry.
     let st1 = st\<lparr>structure_dict :=
                    AList.update file_name (entry\<lparr>s_schema := schema\<rparr>) (structure_dict st)\<rparr> in
     and_then (utils_sort_paths (glob w (utils_gen_file_path cfg file_name ''test''))) (\<lambda>paths_i.
     and_then (columns_loop features_df features_sg_df df schema) (\<lambda>cs.
     let st2 = st1\<lparr>columns_dtypes := dict_update (columns_dtypes st1) (cols_dtypes cs),
                    columns := columns st1 @ cols_to_incl cs,
                    cols_cat := dict_update (cols_cat st1) (cols_cat_i cs)\<rparr> in
     and_then (dict_get (structure_dict st2) file_name) (\<lambda>entry2.
     Inr (st2\<lparr>structure_dict :=
                AList.update file_name (entry2\<lparr>s_columns_map := mapping cs\<rparr>)
                  (structure_dict st2)\<rparr>)))))))"

text \<open>
  The properties of one group as they stand after its iteration: the key \<^verbatim>\<open>"paths"\<close> it
  came with and the five keys the iteration stores. \<^verbatim>\<open>np.unique\<close> sorts the names and drops
  repetitions.
\<close>

record group_props =
  props_paths :: "string list"
  props_structure :: "(string \<times> file_structure) list"
  props_columns :: "string list"
  props_columns_cat :: "(string \<times> cell list) list"
  props_columns_dtypes :: "(string \<times> dtype) list"
  props_columns_date_index :: "string list"

definition np_unique :: "string list \<Rightarrow> string list" where
  "np_unique xs = sort (remdups xs)"

definition group_step ::
  "world \<Rightarrow> config \<Rightarrow> feature_row list \<Rightarrow> feature_row list \<Rightarrow> string \<Rightarrow> string list
     \<Rightarrow> py_error + group_props" where
  "group_step w cfg features_df dates_df name file_names =
     (let features_sg_df = filter (\<lambda>r. source_group r = name) features_df;
          structure_dict0 = fold (\<lambda>i d. AList.update i new_file_structure d) file_names []
      in
      and_then
        (for_each (file_step w cfg features_df features_sg_df) file_names
           \<lparr>structure_dict = structure_dict0, columns = [], cols_cat = [], columns_dtypes = []\<rparr>)
        (\<lambda>st.
      Inr \<lparr>props_paths = file_names,
           props_structure = structure_dict st,
           props_columns = np_unique (columns st),
           props_columns_cat = cols_cat st,
           props_columns_dtypes = columns_dtypes st,
           props_columns_date_index =
             map feature (filter (\<lambda>r. source_group r = name) dates_df)\<rparr>))"

text \<open>The loop over the groups: each group's properties are replaced by the updated ones.\<close>

fun groups_loop ::
  "(string \<Rightarrow> string list \<Rightarrow> py_error + group_props) \<Rightarrow> (string \<times> string list) list
     \<Rightarrow> py_error + (string \<times> group_props) list" where
  "groups_loop body [] = Inr []"
| "groups_loop body ((name, file_names) # rest) =
     (case body name file_names of
        Inl e \<Rightarrow> Inl e
      | Inr props \<Rightarrow>
          (case groups_loop body rest of Inl e \<Rightarrow> Inl e | Inr out \<Rightarrow> Inr ((name, props) # out)))"

text \<open>
  \<^verbatim>\<open>write_data_props(dfs_props, version)\<close>. The argument maps each group name to the list
  of file-name patterns under its key \<^verbatim>\<open>"paths"\<close>. The result is the name of the pickle
  file together with the dictionary handed to \<^verbatim>\<open>pickle.dump\<close>.
\<close>

definition write_data_props ::
  "world \<Rightarrow> config \<Rightarrow> (string \<times> string list) list \<Rightarrow> string
     \<Rightarrow> py_error + string \<times> (string \<times> group_props) list" where
  "write_data_props w cfg dfs_props version =
     and_then (read_csv w (os_path_join (PATH_FEATURES cfg) (''features_'' @ version @ ''.csv'')))
       (\<lambda>features_df.
     let dates_df = filter (\<lambda>r. date_col r = Some 1) features_df in
     and_then (groups_loop (group_step w cfg features_df dates_df) dfs_props) (\<lambda>out.
     let path = os_path_join (PATH_FEATURES cfg) (''dfs_props_'' @ version @ ''.pkl'') in
     (case open_wb w path of Some e \<Rightarrow> Inl e | None \<Rightarrow> Inr (path, out))))"

text \<open>
  A small world for concrete runs: a features table, three sample files, and a file system
  in which the pattern \<^verbatim>\<open>applprev_1_*\<close> has two train files and one test file and the
  patterns \<^verbatim>\<open>applprev_2\<close> and \<^verbatim>\<open>applprev_3\<close> have one train file each and no test file.
\<close>

definition example_features :: "feature_row list" where
  "example_features =
     [\<lparr>feature = ''kind_M'', source_group = ''applprev'', new_name = [], agg = ''dummy'',
        date_col = None\<rparr>,
      \<lparr>feature = ''amount_A'', source_group = ''applprev'', new_name = ''amt_A'', agg = ''mean'',
        date_col = None\<rparr>,
      \<lparr>feature = ''open_D'', source_group = ''applprev'', new_name = [], agg = ''max'',
        date_col = Some 1\<rparr>,
      \<lparr>feature = ''other_M'', source_group = ''person'', new_name = ''renamed_M'', agg = ''dummy'',
        date_col = None\<rparr>]"

definition example_df1 :: dataframe where
  "example_df1 =
     [(''id'', OtherDtype ''Int32'', [Num 1, Num 2, Num 3]),
      (''kind_M'', String, [Str ''a'', Null, Str [], Str ''b'', Str ''a'']),
      (''amount_A'', OtherDtype ''Int32'', [Num 10, Num 20, Num 30])]"

definition example_df2 :: dataframe where
  "example_df2 =
     [(''id'', OtherDtype ''Int32'', [Num 1]),
      (''kind_M'', String, [Str ''c''])]"

definition example_df3 :: dataframe where
  "example_df3 =
     [(''id'', OtherDtype ''Int32'', [Num 1]),
      (''open_D'', String, [Str ''2020-01-01''])]"

definition example_world :: world where
  "example_world =
     \<lparr>glob = (\<lambda>pat.
         if pat = ''data/parquet_files/train/train_applprev_1_*.parquet''
           then [''data/parquet_files/train/train_applprev_1_1.parquet'',
                 ''data/parquet_files/train/train_applprev_1_0.parquet'']
         else if pat = ''data/parquet_files/train/train_applprev_2.parquet''
           then [''data/parquet_files/train/train_applprev_2.parquet'']
         else if pat = ''data/parquet_files/train/train_applprev_3.parquet''
           then [''data/parquet_files/train/train_applprev_3.parquet'']
         else if pat = ''data/parquet_files/test/test_applprev_1_*.parquet''
           then [''data/parquet_files/test/test_applprev_1_0.parquet'']
         else []),
      read_parquet = (\<lambda>path.
         if path = ''data/parquet_files/train/train_applprev_1_0.parquet'' then Inr example_df1
         else if path = ''data/parquet_files/train/train_applprev_2.parquet'' then Inr example_df2
         else if path = ''data/parquet_files/train/train_applprev_3.parquet'' then Inr example_df3
         else Inl OSError),
      read_csv = (\<lambda>path. if path = ''features/features_old.csv'' then Inr example_features
         else Inl OSError),
      open_wb = (\<lambda>path. None)\<rparr>"

definition example_dfs_props :: "(string \<times> string list) list" where
  "example_dfs_props = [(''applprev'', [''applprev_1_*'', ''applprev_2'', ''applprev_3''])]"

text \<open>The properties of the group \<^verbatim>\<open>applprev\<close> that the run in this world pickles.\<close>

definition example_props :: group_props where
  "example_props =
     \<lparr>props_paths = [''applprev_1_*'', ''applprev_2'', ''applprev_3''],
      props_structure =
        [(''applprev_1_*'',
          \<lparr>s_paths = \<lparr>train = EmptyDict, test = PathList []\<rparr>,
           s_schema = [(''id'', Int64), (''kind_M'', String), (''amount_A'', Float64)],
           s_columns_map =
             [(''id'', Some ''id''), (''kind_M'', Some ''kind_M''), (''amount_A'', Some ''amt_A'')]\<rparr>),
         (''applprev_2'',
          \<lparr>s_paths = \<lparr>train = EmptyDict, test = PathList []\<rparr>,
           s_schema = [(''id'', Int64), (''kind_M'', String)],
           s_columns_map = [(''id'', Some ''id''), (''kind_M'', Some ''kind_M'')]\<rparr>),
         (''applprev_3'',
          \<lparr>s_paths = \<lparr>train = EmptyDict, test = PathList []\<rparr>,
           s_schema = [(''id'', Int64), (''open_D'', Date)],
           s_columns_map = [(''id'', Some ''id''), (''open_D'', Some ''open_D'')]\<rparr>)],
      props_columns = [''amt_A'', ''id'', ''kind_M'', ''open_D''],
      props_columns_cat = [(''kind_M'', [Str ''c''])],
      props_columns_dtypes =
        [(''id'', Int64), (''kind_M'', String), (''amount_A'', Float64), (''open_D'', Date)],
      props_columns_date_index = [''open_D'']\<rparr>"

section \<open>Properties of sort\_paths\<close>

lemma py_split_nonempty: "py_split sep s \<noteq> []"
  by (induction s) (auto split: list.splits)

lemma path_suffix_returns: "\<exists>s. path_suffix path = Inr s"
proof -
  obtain seg where seg: "index_last (py_split CHR ''_'' path) = Inr seg"
    by (simp add: index_last_def py_split_nonempty)
  obtain s ss where "py_split CHR ''.'' seg = s # ss"
    using py_split_nonempty [of "CHR ''.''" seg] by (cases "py_split CHR ''.'' seg") auto
  then show ?thesis
    by (simp add: path_suffix_def seg index_first_def)
qed

lemma int_digits_error: "int_digits ds = Inl e \<Longrightarrow> e = ValueError"
  by (auto simp: int_digits_def split: if_splits)

lemma py_int_error: "py_int s = Inl e \<Longrightarrow> e = ValueError"
  by (auto simp: py_int_def split: list.splits if_splits sum.splits dest: int_digits_error)

lemma path_num_error: "path_num path = Inl e \<Longrightarrow> e = ValueError"
  using path_suffix_returns [of path]
  by (auto simp: path_num_def split: sum.splits dest: py_int_error)

lemma paths_nums_of_Inr:
  "paths_nums_of paths = Inr ns \<Longrightarrow> map path_num paths = map Inr ns"
  by (induction paths arbitrary: ns) (auto split: sum.splits)

lemma paths_nums_of_returns:
  "\<forall>p\<in>set paths. \<exists>n. path_num p = Inr n \<Longrightarrow> \<exists>ns. paths_nums_of paths = Inr ns"
  by (induction paths) (auto split: sum.splits)

lemma paths_nums_of_raises:
  "p \<in> set paths \<Longrightarrow> path_num p = Inl e \<Longrightarrow> paths_nums_of paths = Inl ValueError"
  by (induction paths) (auto split: sum.splits dest: path_num_error)

lemma zip_nums_paths:
  assumes "map path_num paths = map Inr ns"
  shows "\<forall>z\<in>set (zip ns paths). path_num (snd z) = Inr (fst z)"
proof -
  have len: "length ns = length paths"
    using assms by (metis length_map)
  show ?thesis
  proof
    fix z assume "z \<in> set (zip ns paths)"
    then obtain i where i: "i < length paths" "z = (ns ! i, paths ! i)"
      using len by (auto simp: set_zip)
    have "map path_num paths ! i = map Inr ns ! i" using assms by simp
    then show "path_num (snd z) = Inr (fst z)" using i len by simp
  qed
qed

lemma sorted_fst_of_sorted_pairs:
  fixes zs :: "(int \<times> string) list"
  shows "sorted zs \<Longrightarrow> sorted (map fst zs)"
  by (induction zs) (auto simp: less_eq_prod_def)

lemma sort_paths_result:
  assumes "paths_nums_of paths = Inr ns"
  defines "zs \<equiv> sort (zip ns paths)"
  shows "map path_num (map snd zs) = map Inr (map fst zs)"
    and "sorted (map fst zs)"
    and "mset (map snd zs) = mset paths"
    and "sorted (zip (map fst zs) (map snd zs))"
proof -
  have eq: "map path_num paths = map Inr ns"
    using assms(1) by (rule paths_nums_of_Inr)
  then have len: "length ns = length paths" by (metis length_map)
  have "\<forall>z\<in>set zs. path_num (snd z) = Inr (fst z)"
    using zip_nums_paths [OF eq] by (simp add: zs_def)
  then show "map path_num (map snd zs) = map Inr (map fst zs)" by simp
  show "sorted (map fst zs)"
    unfolding zs_def by (rule sorted_fst_of_sorted_pairs) simp
  have "mset (map snd zs) = image_mset snd (mset (zip ns paths))"
    by (simp add: zs_def)
  also have "\<dots> = mset (map snd (zip ns paths))" by simp
  also have "\<dots> = mset paths" using len by simp
  finally show "mset (map snd zs) = mset paths" .
  have "sorted zs" by (simp add: zs_def)
  then show "sorted (zip (map fst zs) (map snd zs))" by (simp add: zip_map_fst_snd)
qed

lemma py_split_append:
  "py_split sep (xs @ sep # ys) = py_split sep xs @ py_split sep ys"
proof (induction xs)
  case Nil
  show ?case by simp
next
  case (Cons x xs)
  obtain w ws where w: "py_split sep xs = w # ws"
    using py_split_nonempty [of sep xs] by (cases "py_split sep xs") auto
  show ?case using Cons w by simp
qed

lemma py_split_no_sep: "sep \<notin> set s \<Longrightarrow> py_split sep s = [s]"
  by (induction s) auto

lemma is_digit_not_space: "is_digit c \<Longrightarrow> \<not> int_space c"
  by (auto simp: is_digit_def int_space_def)

lemma is_digit_not_separator:
  "is_digit c \<Longrightarrow> c \<noteq> CHR ''_'' \<and> c \<noteq> CHR ''.'' \<and> c \<noteq> CHR ''-'' \<and> c \<noteq> CHR ''+''"
  by (auto simp: is_digit_def)

lemma int_strip_digits:
  assumes "ds \<noteq> []" and "list_all is_digit ds"
  shows "int_strip ds = ds"
proof -
  have "\<not> int_space (hd ds)"
    using assms by (cases ds) (auto dest: is_digit_not_space)
  then have a: "dropWhile int_space ds = ds"
    using assms(1) by (cases ds) auto
  have "is_digit (last ds)"
    using assms by (simp add: list_all_iff)
  then have "\<not> int_space (hd (rev ds))"
    using assms(1) by (simp add: hd_rev is_digit_not_space)
  then have "dropWhile int_space (rev ds) = rev ds"
    using assms(1) by (cases "rev ds") auto
  with a show ?thesis by (simp add: int_strip_def)
qed

lemma py_int_digits:
  assumes "ds \<noteq> []" and "list_all is_digit ds" and "length ds \<le> int_max_str_digits"
  shows "py_int ds = Inr (dec_value ds)"
proof -
  obtain c cs where ds: "ds = c # cs" using assms(1) by (cases ds) auto
  then have "is_digit c" using assms(2) by simp
  then have "c \<noteq> CHR ''-''" "c \<noteq> CHR ''+''" using is_digit_not_separator by auto
  moreover have "int_digits ds = Inr (dec_value ds)"
    using assms by (simp add: int_digits_def)
  ultimately show ?thesis
    using int_strip_digits [OF assms(1,2)] ds by (simp add: py_int_def)
qed

lemma path_num_well_formed:
  assumes "ds \<noteq> []" and "list_all is_digit ds" and "length ds \<le> int_max_str_digits"
    and "CHR ''_'' \<notin> set ext"
  shows "path_num (name @ ''_'' @ ds @ ''.'' @ ext) = Inr (dec_value ds)"
proof -
  have nd: "CHR ''_'' \<notin> set ds" "CHR ''.'' \<notin> set ds"
    using assms(2) is_digit_not_separator by (auto simp: list_all_iff)
  have "py_split CHR ''_'' (name @ CHR ''_'' # (ds @ ''.'' @ ext))
      = py_split CHR ''_'' name @ [ds @ ''.'' @ ext]"
    using nd(1) assms(4) by (simp add: py_split_append py_split_no_sep)
  then have seg: "index_last (py_split CHR ''_'' (name @ ''_'' @ ds @ ''.'' @ ext)) = Inr (ds @ ''.'' @ ext)"
    by (simp add: index_last_def)
  have "py_split CHR ''.'' (ds @ CHR ''.'' # ext) = ds # py_split CHR ''.'' ext"
    using nd(2) by (simp add: py_split_append py_split_no_sep)
  then have "index_first (py_split CHR ''.'' (ds @ ''.'' @ ext)) = Inr ds"
    by (simp add: index_first_def)
  with seg have "path_suffix (name @ ''_'' @ ds @ ''.'' @ ext) = Inr ds"
    by (simp add: path_suffix_def)
  then show ?thesis
    using py_int_digits [OF assms(1-3)] by (simp add: path_num_def)
qed

text \<open>
  Claim C3. When the number of every path can be read, that is \<open>path_num\<close> returns for it,
  \<open>sort_paths\<close> returns the same paths, each as often as it was given, in ascending order
  of their numbers, paths of equal number in the order of the paths themselves.
  Every name made of a stem, an underscore, a non-empty run of at most \<open>int_max_str_digits\<close>
  decimal digits, a dot and an extension without underscore is such a path, and its number
  is the value of the digits. A list of one path is returned as it is, and the three paths of
  the example come out in the order 1, 2, 10.
\<close>

theorem sort_paths_sorted_by_number:
  "((\<forall>p\<in>set paths. \<exists>n. path_num p = Inr n) \<longrightarrow>
      (\<exists>out nums. sort_paths paths = Inr out \<and> mset out = mset paths
         \<and> map path_num out = map Inr nums \<and> sorted nums \<and> sorted (zip nums out)))
   \<and> (ds \<noteq> [] \<and> list_all is_digit ds \<and> length ds \<le> int_max_str_digits \<and> CHR ''_'' \<notin> set ext \<longrightarrow>
        path_num (name @ ''_'' @ ds @ ''.'' @ ext) = Inr (dec_value ds))
   \<and> sort_paths [q] = Inr [q]
   \<and> sort_paths [''a_2.parquet'', ''a_10.parquet'', ''a_1.parquet'']
       = Inr [''a_1.parquet'', ''a_2.parquet'', ''a_10.parquet'']"
proof (intro conjI impI)
  assume wf: "\<forall>p\<in>set paths. \<exists>n. path_num p = Inr n"
  then obtain ns where ns: "paths_nums_of paths = Inr ns"
    using paths_nums_of_returns by blast
  show "\<exists>out nums. sort_paths paths = Inr out \<and> mset out = mset paths
         \<and> map path_num out = map Inr nums \<and> sorted nums \<and> sorted (zip nums out)"
  proof (cases "length paths = 1")
    case True
    then obtain p where p: "paths = [p]" by (cases paths) auto
    then obtain n where "path_num p = Inr n" using wf by auto
    then have "sort_paths paths = Inr [p] \<and> mset [p] = mset paths
        \<and> map path_num [p] = map Inr [n] \<and> sorted [n] \<and> sorted (zip [n] [p])"
      by (simp add: sort_paths_def p)
    then show ?thesis by blast
  next
    case False
    then have "sort_paths paths = Inr (map snd (sort (zip ns paths)))"
      by (simp add: sort_paths_def ns)
    then show ?thesis
      using sort_paths_result [OF ns] by blast
  qed
next
  assume "ds \<noteq> [] \<and> list_all is_digit ds \<and> length ds \<le> int_max_str_digits \<and> CHR ''_'' \<notin> set ext"
  then show "path_num (name @ ''_'' @ ds @ ''.'' @ ext) = Inr (dec_value ds)"
    using path_num_well_formed [of ds ext name] by blast
next
  show "sort_paths [q] = Inr [q]" by (simp add: sort_paths_def)
next
  show "sort_paths [''a_2.parquet'', ''a_10.parquet'', ''a_1.parquet'']
       = Inr [''a_1.parquet'', ''a_2.parquet'', ''a_10.parquet'']"
    by code_simp
qed

theorem sort_paths_sorted_by_number_witness:
  "path_num ''b_7.parquet'' = Inr 7 \<and> path_num ''b_3.parquet'' = Inr 3
   \<and> (''7'' \<noteq> [] \<and> list_all is_digit ''7'' \<and> length ''7'' \<le> int_max_str_digits
        \<and> CHR ''_'' \<notin> set ''parquet'')
   \<and> path_num (''b'' @ ''_'' @ ''7'' @ ''.'' @ ''parquet'') = Inr (dec_value ''7'')
   \<and> sort_paths [''b_7.parquet'', ''b_3.parquet''] = Inr [''b_3.parquet'', ''b_7.parquet'']
   \<and> (\<exists>out nums. sort_paths [''b_7.parquet'', ''b_3.parquet''] = Inr out
        \<and> mset out = mset [''b_7.parquet'', ''b_3.parquet'']
        \<and> map path_num out = map Inr nums \<and> sorted nums \<and> sorted (zip nums out))"
proof -
  have a: "path_num ''b_7.parquet'' = Inr 7" by code_simp
  have b: "path_num ''b_3.parquet'' = Inr 3" by code_simp
  have wf: "\<forall>p\<in>set [''b_7.parquet'', ''b_3.parquet'']. \<exists>n. path_num p = Inr n"
    using a b by simp
  have d: "''7'' \<noteq> [] \<and> list_all is_digit ''7'' \<and> length ''7'' \<le> int_max_str_digits
        \<and> CHR ''_'' \<notin> set ''parquet''"
    by (simp add: is_digit_def int_max_str_digits_def)
  have c: "sort_paths [''b_7.parquet'', ''b_3.parquet''] = Inr [''b_3.parquet'', ''b_7.parquet'']"
    by code_simp
  show ?thesis
    using a b wf c d
      sort_paths_sorted_by_number [of "[''b_7.parquet'', ''b_3.parquet'']" "''7''" "''parquet''" "''b''"]
    by blast
qed

text \<open>
  Claim C10. When the number of every path can be read, \<open>sort_paths\<close> returns a permutation
  of its input: the same length, and the same paths with the same multiplicities.
\<close>

theorem sort_paths_permutation:
  assumes "\<forall>p\<in>set paths. \<exists>n. path_num p = Inr n"
  shows "\<exists>out. sort_paths paths = Inr out \<and> length out = length paths \<and> mset out = mset paths"
proof (cases "length paths = 1")
  case True
  then show ?thesis by (simp add: sort_paths_def)
next
  case False
  obtain ns where ns: "paths_nums_of paths = Inr ns"
    using assms paths_nums_of_returns by blast
  have out: "sort_paths paths = Inr (map snd (sort (zip ns paths)))"
    using False by (simp add: sort_paths_def ns)
  have m: "mset (map snd (sort (zip ns paths))) = mset paths"
    using sort_paths_result(3) [OF ns] .
  then have "length (map snd (sort (zip ns paths))) = length paths"
    by (metis size_mset)
  with out m show ?thesis by blast
qed

theorem sort_paths_permutation_witness:
  "path_num ''c_2.parquet'' = Inr 2 \<and> path_num ''c_1.parquet'' = Inr 1
   \<and> (\<exists>out. sort_paths [''c_2.parquet'', ''c_1.parquet'', ''c_2.parquet''] = Inr out
        \<and> length out = length [''c_2.parquet'', ''c_1.parquet'', ''c_2.parquet'']
        \<and> mset out = mset [''c_2.parquet'', ''c_1.parquet'', ''c_2.parquet''])"
proof -
  have a: "path_num ''c_2.parquet'' = Inr 2" by code_simp
  have b: "path_num ''c_1.parquet'' = Inr 1" by code_simp
  have wf: "\<forall>p\<in>set [''c_2.parquet'', ''c_1.parquet'', ''c_2.parquet'']. \<exists>n. path_num p = Inr n"
    using a b by simp
  show ?thesis
    using a b sort_paths_permutation [OF wf] by blast
qed

text \<open>
  Claim C6, as stated, fails on a list of one path: the path is returned before any number is
  read, also when the piece after its last underscore is not a number.
\<close>

theorem sort_paths_single_path_not_read:
  "path_num ''a_x.parquet'' = Inl ValueError
   \<and> sort_paths [''a_x.parquet''] = Inr [''a_x.parquet'']"
  by code_simp

text \<open>
  Claim C6, amended. For every list of paths that does not consist of exactly one path, if
  the number of some path cannot be read then \<open>sort_paths\<close> raises \<^verbatim>\<open>ValueError\<close> and
  returns nothing. A list of exactly one path is returned as it is, whatever the path.
\<close>

theorem sort_paths_raises_on_non_numeric:
  assumes "length paths \<noteq> 1" and "p \<in> set paths" and "\<forall>n. path_num p \<noteq> Inr n"
  shows "sort_paths paths = Inl ValueError \<and> sort_paths [q] = Inr [q]"
proof -
  obtain e where "path_num p = Inl e"
    using assms(3) by (cases "path_num p") auto
  then have "paths_nums_of paths = Inl ValueError"
    using assms(2) by (rule paths_nums_of_raises [rotated])
  then have "sort_paths paths = Inl ValueError" using assms(1) by (simp add: sort_paths_def)
  moreover have "sort_paths [q] = Inr [q]" by (simp add: sort_paths_def)
  ultimately show ?thesis by blast
qed

theorem sort_paths_raises_on_non_numeric_witness:
  "length [''a_x.parquet'', ''a_1.parquet''] \<noteq> 1
   \<and> ''a_x.parquet'' \<in> set [''a_x.parquet'', ''a_1.parquet'']
   \<and> (\<forall>n. path_num ''a_x.parquet'' \<noteq> Inr n)
   \<and> sort_paths [''a_x.parquet'', ''a_1.parquet''] = Inl ValueError
   \<and> sort_paths [''a_y.parquet''] = Inr [''a_y.parquet'']"
proof -
  have a: "path_num ''a_x.parquet'' = Inl ValueError" by code_simp
  then have b: "\<forall>n. path_num ''a_x.parquet'' \<noteq> Inr n" by simp
  have l: "length [''a_x.parquet'', ''a_1.parquet''] \<noteq> 1" by simp
  have m: "''a_x.parquet'' \<in> set [''a_x.parquet'', ''a_1.parquet'']" by simp
  show ?thesis
    using l m b sort_paths_raises_on_non_numeric [OF l m b, of "''a_y.parquet''"] by blast
qed

section \<open>Properties of set\_dtypes\<close>

lemma set_dtypes_step_other:
  "set_dtypes_step cfg col schema = Inr schema' \<Longrightarrow> col \<noteq> c \<Longrightarrow> map_of schema' c = map_of schema c"
  by (auto simp: set_dtypes_step_def update_conv' split: if_splits)

lemma set_dtypes_step_keys:
  "set_dtypes_step cfg col schema = Inr schema' \<Longrightarrow> col \<in> set (map fst schema) \<Longrightarrow> map fst schema' = map fst schema"
  by (auto simp: set_dtypes_step_def update_keys simp del: set_map split: if_splits)

lemma set_dtypes_step_pass:
  assumes "c \<notin> set [COL_ID cfg, COL_WEEK cfg, ''num_group1'', ''num_group2'']"
    and "c \<noteq> COL_DATE cfg"
    and "c = [] \<or> last c \<notin> set [CHR ''P'', CHR ''A'', CHR ''M'', CHR ''D'']"
    and "set_dtypes_step cfg c schema = Inr schema'"
  shows "schema' = schema"
  using assms by (auto simp: set_dtypes_step_def split: if_splits)

lemma set_dtypes_loop_frame:
  assumes "c \<notin> set [COL_ID cfg, COL_WEEK cfg, ''num_group1'', ''num_group2'']"
    and "c \<noteq> COL_DATE cfg"
    and "c = [] \<or> last c \<notin> set [CHR ''P'', CHR ''A'', CHR ''M'', CHR ''D'']"
  shows "map_of (fst (set_dtypes_loop cfg cols schema)) c = map_of schema c"
proof (induction cols arbitrary: schema)
  case Nil
  show ?case by simp
next
  case (Cons col cols)
  show ?case
  proof (cases "set_dtypes_step cfg col schema")
    case (Inl e)
    then show ?thesis by simp
  next
    case (Inr schema')
    have "map_of schema' c = map_of schema c"
    proof (cases "col = c")
      case True
      then show ?thesis using set_dtypes_step_pass [OF assms, of schema schema'] Inr by simp
    next
      case False
      then show ?thesis using set_dtypes_step_other [OF Inr] by simp
    qed
    then show ?thesis using Cons.IH [of schema'] Inr by simp
  qed
qed

lemma set_dtypes_loop_keys:
  "set cols \<subseteq> fst ` set schema \<Longrightarrow> map fst (fst (set_dtypes_loop cfg cols schema)) = map fst schema"
proof (induction cols arbitrary: schema)
  case Nil
  show ?case by simp
next
  case (Cons col cols)
  show ?case
  proof (cases "set_dtypes_step cfg col schema")
    case (Inl e)
    then show ?thesis by simp
  next
    case (Inr schema')
    have k: "map fst schema' = map fst schema"
      using set_dtypes_step_keys [OF Inr] Cons.prems by simp
    then have "fst ` set schema' = fst ` set schema"
      by (metis set_map)
    then have "set cols \<subseteq> fst ` set schema'" using Cons.prems by simp
    then show ?thesis using Cons.IH [of schema'] Inr k by simp
  qed
qed

lemma set_dtypes_step_returns:
  "col = [] \<longrightarrow> col \<in> set [COL_ID cfg, COL_WEEK cfg, COL_DATE cfg] \<Longrightarrow>
   \<exists>schema'. set_dtypes_step cfg col schema = Inr schema'"
  by (auto simp: set_dtypes_step_def)

lemma set_dtypes_loop_returns:
  "\<forall>col\<in>set cols. col = [] \<longrightarrow> col \<in> set [COL_ID cfg, COL_WEEK cfg, COL_DATE cfg] \<Longrightarrow>
   snd (set_dtypes_loop cfg cols schema) = None"
proof (induction cols arbitrary: schema)
  case Nil
  show ?case by simp
next
  case (Cons col cols)
  then obtain schema' where "set_dtypes_step cfg col schema = Inr schema'"
    using set_dtypes_step_returns [of col cfg schema] by auto
  then show ?case using Cons by simp
qed

lemma set_dtypes_loop_assigned:
  assumes "\<And>s. set_dtypes_step cfg c s = Inr (AList.update c v s)"
    and "c \<in> set cols \<or> map_of schema c = Some v"
    and "snd (set_dtypes_loop cfg cols schema) = None"
  shows "map_of (fst (set_dtypes_loop cfg cols schema)) c = Some v"
  using assms(2,3)
proof (induction cols arbitrary: schema)
  case Nil
  then show ?case by simp
next
  case (Cons col cols)
  show ?case
  proof (cases "set_dtypes_step cfg col schema")
    case (Inl e)
    then show ?thesis using Cons.prems by simp
  next
    case (Inr schema')
    have "c \<in> set cols \<or> map_of schema' c = Some v"
    proof (cases "col = c")
      case True
      then have "schema' = AList.update c v schema" using Inr assms(1) by simp
      then show ?thesis by (simp add: update_conv')
    next
      case False
      then show ?thesis using set_dtypes_step_other [OF Inr] Cons.prems(1) by auto
    qed
    then show ?thesis using Cons.IH [of schema'] Cons.prems(2) Inr by simp
  qed
qed

text \<open>
  Claim C2, as stated, fails on a schema that has a column with an empty name (which is not
  one of the configured columns): \<^verbatim>\<open>col[-1]\<close> raises \<^verbatim>\<open>IndexError\<close> there, no mapping is
  returned, and a later column that ends in \<^verbatim>\<open>"P"\<close> still has the dtype it had.
\<close>

theorem set_dtypes_raises_on_empty_name:
  "set_dtypes example_config [('''', PyNone), (''amt_P'', PyNone)] = Inl IndexError
   \<and> map_of (fst (set_dtypes_run example_config [('''', PyNone), (''amt_P'', PyNone)])) ''amt_P'' = Some PyNone"
  by (simp add: set_dtypes_def set_dtypes_run_def set_dtypes_step_def example_config_def)

text \<open>
  Claim C2, amended. For every schema in which no column has an empty name, unless that
  name is the configured id, week or date column, \<open>set_dtypes\<close> returns a schema with the
  same columns in the same order, in which the id, week and group-number columns are
  \<open>Int64\<close> whatever their suffix; of the other columns, the configured date column is
  \<open>Date\<close>; of the remaining ones, a name ending in \<^verbatim>\<open>"P"\<close> or \<^verbatim>\<open>"A"\<close> is \<open>Float64\<close>, one ending in \<^verbatim>\<open>"M"\<close>
  is \<open>String\<close> and one ending in \<^verbatim>\<open>"D"\<close> is \<open>Date\<close>. In every configuration whose id column is
  \<^verbatim>\<open>"id"\<close> and whose week and date columns are neither \<^verbatim>\<open>"amt_P"\<close> nor \<^verbatim>\<open>"flag_M"\<close>, the
  schema of the example is mapped as the example says.
\<close>

theorem set_dtypes_by_suffix:
  "((\<forall>col\<in>set (map fst schema). col = [] \<longrightarrow> col \<in> set [COL_ID cfg, COL_WEEK cfg, COL_DATE cfg]) \<longrightarrow>
     (\<exists>schema'. set_dtypes cfg schema = Inr schema' \<and> map fst schema' = map fst schema \<and>
        (\<forall>col\<in>set (map fst schema).
           (col \<in> set [COL_ID cfg, COL_WEEK cfg, ''num_group1'', ''num_group2'']
              \<longrightarrow> map_of schema' col = Some Int64) \<and>
           (col \<notin> set [COL_ID cfg, COL_WEEK cfg, ''num_group1'', ''num_group2''] \<and> col = COL_DATE cfg
              \<longrightarrow> map_of schema' col = Some Date) \<and>
           (col \<notin> set [COL_ID cfg, COL_WEEK cfg, ''num_group1'', ''num_group2''] \<and> col \<noteq> COL_DATE cfg
              \<and> col \<noteq> [] \<and> last col \<in> set [CHR ''P'', CHR ''A'']
              \<longrightarrow> map_of schema' col = Some Float64) \<and>
           (col \<notin> set [COL_ID cfg, COL_WEEK cfg, ''num_group1'', ''num_group2''] \<and> col \<noteq> COL_DATE cfg
              \<and> col \<noteq> [] \<and> last col = CHR ''M''
              \<longrightarrow> map_of schema' col = Some String) \<and>
           (col \<notin> set [COL_ID cfg, COL_WEEK cfg, ''num_group1'', ''num_group2'']
              \<and> col \<noteq> [] \<and> last col = CHR ''D''
              \<longrightarrow> map_of schema' col = Some Date))))
   \<and> (COL_ID cfg = ''id'' \<and> COL_WEEK cfg \<notin> set [''amt_P'', ''flag_M'']
        \<and> COL_DATE cfg \<notin> set [''amt_P'', ''flag_M''] \<longrightarrow>
      set_dtypes cfg [(''amt_P'', PyNone), (''id'', PyNone), (''flag_M'', PyNone)]
        = Inr [(''amt_P'', Float64), (''id'', Int64), (''flag_M'', String)])"
proof (intro conjI impI)
  assume ne: "\<forall>col\<in>set (map fst schema). col = [] \<longrightarrow> col \<in> set [COL_ID cfg, COL_WEEK cfg, COL_DATE cfg]"
  define schema' where "schema' = fst (set_dtypes_run cfg schema)"
  have ok: "snd (set_dtypes_loop cfg (map fst schema) schema) = None"
    using ne by (rule set_dtypes_loop_returns)
  then have run: "set_dtypes_run cfg schema = (schema', None)"
    by (simp add: schema'_def set_dtypes_run_def prod_eq_iff)
  then have ret: "set_dtypes cfg schema = Inr schema'"
    by (simp add: set_dtypes_def)
  have keys: "map fst schema' = map fst schema"
    unfolding schema'_def set_dtypes_run_def by (rule set_dtypes_loop_keys) simp
  have assigned: "map_of schema' col = Some v"
    if "col \<in> set (map fst schema)" and "\<And>s. set_dtypes_step cfg col s = Inr (AList.update col v s)"
    for col v
    unfolding schema'_def set_dtypes_run_def
    using that(2) _ ok by (rule set_dtypes_loop_assigned) (use that(1) in simp)
  have "\<forall>col\<in>set (map fst schema).
           (col \<in> set [COL_ID cfg, COL_WEEK cfg, ''num_group1'', ''num_group2'']
              \<longrightarrow> map_of schema' col = Some Int64) \<and>
           (col \<notin> set [COL_ID cfg, COL_WEEK cfg, ''num_group1'', ''num_group2''] \<and> col = COL_DATE cfg
              \<longrightarrow> map_of schema' col = Some Date) \<and>
           (col \<notin> set [COL_ID cfg, COL_WEEK cfg, ''num_group1'', ''num_group2''] \<and> col \<noteq> COL_DATE cfg
              \<and> col \<noteq> [] \<and> last col \<in> set [CHR ''P'', CHR ''A'']
              \<longrightarrow> map_of schema' col = Some Float64) \<and>
           (col \<notin> set [COL_ID cfg, COL_WEEK cfg, ''num_group1'', ''num_group2''] \<and> col \<noteq> COL_DATE cfg
              \<and> col \<noteq> [] \<and> last col = CHR ''M''
              \<longrightarrow> map_of schema' col = Some String) \<and>
           (col \<notin> set [COL_ID cfg, COL_WEEK cfg, ''num_group1'', ''num_group2'']
              \<and> col \<noteq> [] \<and> last col = CHR ''D''
              \<longrightarrow> map_of schema' col = Some Date)"
  proof (intro ballI conjI impI)
    fix col assume c: "col \<in> set (map fst schema)"
    { assume "col \<in> set [COL_ID cfg, COL_WEEK cfg, ''num_group1'', ''num_group2'']"
      then have "\<And>s. set_dtypes_step cfg col s = Inr (AList.update col Int64 s)"
        by (simp add: set_dtypes_step_def)
      then show "map_of schema' col = Some Int64" by (rule assigned [OF c]) }
    { assume "col \<notin> set [COL_ID cfg, COL_WEEK cfg, ''num_group1'', ''num_group2''] \<and> col = COL_DATE cfg"
      then have "\<And>s. set_dtypes_step cfg col s = Inr (AList.update col Date s)"
        by (auto simp: set_dtypes_step_def)
      then show "map_of schema' col = Some Date" by (rule assigned [OF c]) }
    { assume "col \<notin> set [COL_ID cfg, COL_WEEK cfg, ''num_group1'', ''num_group2''] \<and> col \<noteq> COL_DATE cfg
              \<and> col \<noteq> [] \<and> last col \<in> set [CHR ''P'', CHR ''A'']"
      then have "\<And>s. set_dtypes_step cfg col s = Inr (AList.update col Float64 s)"
        by (auto simp: set_dtypes_step_def)
      then show "map_of schema' col = Some Float64" by (rule assigned [OF c]) }
    { assume "col \<notin> set [COL_ID cfg, COL_WEEK cfg, ''num_group1'', ''num_group2''] \<and> col \<noteq> COL_DATE cfg
              \<and> col \<noteq> [] \<and> last col = CHR ''M''"
      then have "\<And>s. set_dtypes_step cfg col s = Inr (AList.update col String s)"
        by (auto simp: set_dtypes_step_def)
      then show "map_of schema' col = Some String" by (rule assigned [OF c]) }
    { assume "col \<notin> set [COL_ID cfg, COL_WEEK cfg, ''num_group1'', ''num_group2'']
              \<and> col \<noteq> [] \<and> last col = CHR ''D''"
      then have "\<And>s. set_dtypes_step cfg col s = Inr (AList.update col Date s)"
        by (auto simp: set_dtypes_step_def)
      then show "map_of schema' col = Some Date" by (rule assigned [OF c]) }
  qed
  with ret keys show "\<exists>schema'. set_dtypes cfg schema = Inr schema' \<and> map fst schema' = map fst schema \<and>
        (\<forall>col\<in>set (map fst schema).
           (col \<in> set [COL_ID cfg, COL_WEEK cfg, ''num_group1'', ''num_group2'']
              \<longrightarrow> map_of schema' col = Some Int64) \<and>
           (col \<notin> set [COL_ID cfg, COL_WEEK cfg, ''num_group1'', ''num_group2''] \<and> col = COL_DATE cfg
              \<longrightarrow> map_of schema' col = Some Date) \<and>
           (col \<notin> set [COL_ID cfg, COL_WEEK cfg, ''num_group1'', ''num_group2''] \<and> col \<noteq> COL_DATE cfg
              \<and> col \<noteq> [] \<and> last col \<in> set [CHR ''P'', CHR ''A'']
              \<longrightarrow> map_of schema' col = Some Float64) \<and>
           (col \<notin> set [COL_ID cfg, COL_WEEK cfg, ''num_group1'', ''num_group2''] \<and> col \<noteq> COL_DATE cfg
              \<and> col \<noteq> [] \<and> last col = CHR ''M''
              \<longrightarrow> map_of schema' col = Some String) \<and>
           (col \<notin> set [COL_ID cfg, COL_WEEK cfg, ''num_group1'', ''num_group2'']
              \<and> col \<noteq> [] \<and> last col = CHR ''D''
              \<longrightarrow> map_of schema' col = Some Date))"
    by blast
next
  assume "COL_ID cfg = ''id'' \<and> COL_WEEK cfg \<notin> set [''amt_P'', ''flag_M'']
        \<and> COL_DATE cfg \<notin> set [''amt_P'', ''flag_M'']"
  then show "set_dtypes cfg [(''amt_P'', PyNone), (''id'', PyNone), (''flag_M'', PyNone)]
        = Inr [(''amt_P'', Float64), (''id'', Int64), (''flag_M'', String)]"
    by (auto simp: set_dtypes_def set_dtypes_run_def set_dtypes_step_def)
qed

theorem set_dtypes_by_suffix_witness:
  "[] \<notin> set (map fst [(''amt_P'', PyNone), (''WEEK_NUM'', OtherDtype ''Int32''), (''birth_D'', String)])
   \<and> (COL_ID example_config = ''id'' \<and> COL_WEEK example_config \<notin> set [''amt_P'', ''flag_M'']
        \<and> COL_DATE example_config \<notin> set [''amt_P'', ''flag_M''])
   \<and> set_dtypes example_config [(''amt_P'', PyNone), (''WEEK_NUM'', OtherDtype ''Int32''), (''birth_D'', String)]
        = Inr [(''amt_P'', Float64), (''WEEK_NUM'', Int64), (''birth_D'', Date)]
   \<and> set_dtypes example_config [(''amt_P'', PyNone), (''id'', PyNone), (''flag_M'', PyNone)]
        = Inr [(''amt_P'', Float64), (''id'', Int64), (''flag_M'', String)]"
proof -
  have h: "\<forall>col\<in>set (map fst [(''amt_P'', PyNone), (''WEEK_NUM'', OtherDtype ''Int32''), (''birth_D'', String)]).
      col = [] \<longrightarrow> col \<in> set [COL_ID example_config, COL_WEEK example_config, COL_DATE example_config]"
    by simp
  have k: "COL_ID example_config = ''id'' \<and> COL_WEEK example_config \<notin> set [''amt_P'', ''flag_M'']
        \<and> COL_DATE example_config \<notin> set [''amt_P'', ''flag_M'']"
    by (simp add: example_config_def)
  have r: "set_dtypes example_config [(''amt_P'', PyNone), (''WEEK_NUM'', OtherDtype ''Int32''), (''birth_D'', String)]
        = Inr [(''amt_P'', Float64), (''WEEK_NUM'', Int64), (''birth_D'', Date)]"
    by (simp add: set_dtypes_def set_dtypes_run_def set_dtypes_step_def example_config_def)
  have n: "[] \<notin> set (map fst [(''amt_P'', PyNone), (''WEEK_NUM'', OtherDtype ''Int32''), (''birth_D'', String)])"
    by simp
  show ?thesis
    using n h k r
      set_dtypes_by_suffix [of "[(''amt_P'', PyNone), (''WEEK_NUM'', OtherDtype ''Int32''), (''birth_D'', String)]"
        example_config]
    by blast
qed

text \<open>
  Claim C7. A column that is not the id, week, a group-number or the date column and whose
  name does not end in \<^verbatim>\<open>"P"\<close>, \<^verbatim>\<open>"A"\<close>, \<^verbatim>\<open>"M"\<close> or \<^verbatim>\<open>"D"\<close> (so also one ending in \<^verbatim>\<open>"T"\<close> or \<^verbatim>\<open>"L"\<close>)
  keeps its dtype: the entry of the dictionary is the same after the loop as before it,
  whether the loop ran to its end or raised, and so it is the same in the schema that
  \<open>set_dtypes\<close> returns.
\<close>

theorem set_dtypes_leaves_other_columns:
  assumes "col \<notin> set [COL_ID cfg, COL_WEEK cfg, ''num_group1'', ''num_group2'']"
    and "col \<noteq> COL_DATE cfg"
    and "col = [] \<or> last col \<notin> set [CHR ''P'', CHR ''A'', CHR ''M'', CHR ''D'']"
  shows "map_of (fst (set_dtypes_run cfg schema)) col = map_of schema col
     \<and> (\<forall>schema'. set_dtypes cfg schema = Inr schema' \<longrightarrow> map_of schema' col = map_of schema col)"
proof -
  have frame: "map_of (fst (set_dtypes_run cfg schema)) col = map_of schema col"
    unfolding set_dtypes_run_def using assms by (rule set_dtypes_loop_frame)
  moreover have "map_of schema' col = map_of schema col" if "set_dtypes cfg schema = Inr schema'" for schema'
  proof -
    from that have "fst (set_dtypes_run cfg schema) = schema'"
      by (auto simp: set_dtypes_def split: prod.splits option.splits)
    with frame show ?thesis by simp
  qed
  ultimately show ?thesis by blast
qed

theorem set_dtypes_leaves_other_columns_witness:
  "''flag_T'' \<notin> set [COL_ID example_config, COL_WEEK example_config, ''num_group1'', ''num_group2'']
   \<and> ''flag_T'' \<noteq> COL_DATE example_config
   \<and> (''flag_T'' = [] \<or> last ''flag_T'' \<notin> set [CHR ''P'', CHR ''A'', CHR ''M'', CHR ''D''])
   \<and> set_dtypes example_config [(''amt_P'', PyNone), (''flag_T'', OtherDtype ''Boolean'')]
        = Inr [(''amt_P'', Float64), (''flag_T'', OtherDtype ''Boolean'')]
   \<and> map_of (fst (set_dtypes_run example_config [(''amt_P'', PyNone), (''flag_T'', OtherDtype ''Boolean'')])) ''flag_T''
        = map_of [(''amt_P'', PyNone), (''flag_T'', OtherDtype ''Boolean'')] ''flag_T''"
proof -
  have a: "''flag_T'' \<notin> set [COL_ID example_config, COL_WEEK example_config, ''num_group1'', ''num_group2'']"
    by (simp add: example_config_def)
  have b: "''flag_T'' \<noteq> COL_DATE example_config"
    by (simp add: example_config_def)
  have c: "''flag_T'' = [] \<or> last ''flag_T'' \<notin> set [CHR ''P'', CHR ''A'', CHR ''M'', CHR ''D'']"
    by simp
  have r: "set_dtypes example_config [(''amt_P'', PyNone), (''flag_T'', OtherDtype ''Boolean'')]
        = Inr [(''amt_P'', Float64), (''flag_T'', OtherDtype ''Boolean'')]"
    by (simp add: set_dtypes_def set_dtypes_run_def set_dtypes_step_def example_config_def)
  show ?thesis
    using a b c r
      set_dtypes_leaves_other_columns [OF a b c, of "[(''amt_P'', PyNone), (''flag_T'', OtherDtype ''Boolean'')]"]
    by blast
qed

section \<open>Properties of write\_data\_props\<close>

lemma and_then_Inr:
  "and_then m f = Inr y \<longleftrightarrow> (\<exists>x. m = Inr x \<and> f x = Inr y)"
  by (cases m) (auto simp: and_then_def)



lemma for_each_preserves:
  assumes "for_each body xs s = Inr s'" and "P s"
    and "\<And>y t t1. y \<in> set xs \<Longrightarrow> P t \<Longrightarrow> body y t = Inr t1 \<Longrightarrow> P t1"
  shows "P s'"
  using assms
proof (induction xs arbitrary: s)
  case Nil
  then show ?case by simp
next
  case (Cons x xs)
  from Cons.prems(1) obtain s1 where s1: "body x s = Inr s1" "for_each body xs s1 = Inr s'"
    by (auto split: sum.splits)
  have "P s1" using Cons.prems(3) [of x s s1] Cons.prems(2) s1(1) by simp
  moreover have "P t1" if "y \<in> set xs" "P t" "body y t = Inr t1" for y t t1
    using Cons.prems(3) [of y t t1] that by simp
  ultimately show ?case using Cons.IH [OF s1(2)] by blast
qed



lemma groups_loop_member:
  "groups_loop body gs = Inr out \<Longrightarrow> (name, props) \<in> set out \<Longrightarrow>
   \<exists>file_names. (name, file_names) \<in> set gs \<and> body name file_names = Inr props"
proof (induction gs arbitrary: out)
  case Nil
  then show ?case by simp
next
  case (Cons g gs)
  obtain n fns where g: "g = (n, fns)" by (cases g)
  from Cons.prems(1) g obtain p rest where
    p: "body n fns = Inr p" "groups_loop body gs = Inr rest" "out = (n, p) # rest"
    by (auto split: sum.splits)
  show ?case
  proof (cases "(name, props) = (n, p)")
    case True
    then show ?thesis using p(1) g by auto
  next
    case False
    then have "(name, props) \<in> set rest" using Cons.prems(2) p(3) by auto
    then show ?thesis using Cons.IH [OF p(2)] by auto
  qed
qed



lemma fold_update_lookup:
  "map_of (fold (\<lambda>i d. AList.update i v d) xs d0) k
     = (if k \<in> set xs then Some v else map_of d0 k)"
  by (induction xs arbitrary: d0) (auto simp: update_conv')



lemma and_thenE:
  assumes "and_then m f = Inr y"
  obtains x where "m = Inr x" and "f x = Inr y"
  using assms by (cases m) (auto simp: and_then_def)












lemma dict_get_Inr: "dict_get d k = Inr v \<longleftrightarrow> map_of d k = Some v"
  by (simp add: dict_get_def split: option.splits)

lemma file_step_Inr:
  assumes "file_step w cfg fdf sg f st = Inr st'"
  shows "\<exists>df schema cs entry.
      read_sample w cfg f = Inr df
    \<and> utils_set_dtypes cfg (df_schema df) = Inr schema
    \<and> columns_loop fdf sg df schema = Inr cs
    \<and> map_of (structure_dict st) f = Some entry
    \<and> map_of (structure_dict st')
        = (map_of (structure_dict st))(f \<mapsto> entry\<lparr>s_schema := schema, s_columns_map := mapping cs\<rparr>)
    \<and> cols_cat st' = dict_update (cols_cat st) (cols_cat_i cs)
    \<and> columns st' = columns st @ cols_to_incl cs
    \<and> columns_dtypes st' = dict_update (columns_dtypes st) (cols_dtypes cs)"
  using assms unfolding file_step_def Let_def
  apply (elim and_thenE)
  apply (simp add: dict_get_Inr update_conv')
  apply (auto simp: fun_eq_iff update_conv')
  done

lemma file_step_structure_other:
  assumes "file_step w cfg fdf sg f st = Inr st'" and "f \<noteq> k"
  shows "map_of (structure_dict st') k = map_of (structure_dict st) k"
proof -
  from file_step_Inr [OF assms(1)] obtain entry :: file_structure and schema and cs :: col_state where
    "map_of (structure_dict st')
        = (map_of (structure_dict st))(f \<mapsto> entry\<lparr>s_schema := schema, s_columns_map := mapping cs\<rparr>)"
    by (elim exE conjE) (rule that, assumption+)
  then show ?thesis using assms(2) by simp
qed

lemma file_step_paths_kept:
  assumes "file_step w cfg fdf sg f st = Inr st'"
    and "\<forall>k e. map_of (structure_dict st) k = Some e \<longrightarrow> s_paths e = p"
  shows "\<forall>k e. map_of (structure_dict st') k = Some e \<longrightarrow> s_paths e = p"
proof -
  from file_step_Inr [OF assms(1)] obtain entry :: file_structure and schema and cs :: col_state where
    e: "map_of (structure_dict st) f = Some entry" and
    m: "map_of (structure_dict st')
        = (map_of (structure_dict st))(f \<mapsto> entry\<lparr>s_schema := schema, s_columns_map := mapping cs\<rparr>)"
    by (elim exE conjE) (rule that, assumption+)
  have "s_paths entry = p" using assms(2) e by blast
  then show ?thesis using assms(2) by (auto simp: m)
qed


lemma group_step_Inr:
  assumes "group_step w cfg fdf dates name fns = Inr props"
  shows "\<exists>st. for_each (file_step w cfg fdf (filter (\<lambda>r. source_group r = name) fdf)) fns
           \<lparr>structure_dict = fold (\<lambda>i d. AList.update i new_file_structure d) fns [],
            columns = [], cols_cat = [], columns_dtypes = []\<rparr> = Inr st
     \<and> props_paths props = fns
     \<and> props_structure props = structure_dict st
     \<and> props_columns_cat props = cols_cat st"
  using assms unfolding group_step_def Let_def
  by (elim and_thenE) auto

lemma write_data_props_Inr:
  assumes "write_data_props w cfg dfs_props version = Inr (path, out)"
  shows "\<exists>fdf. read_csv w (os_path_join (PATH_FEATURES cfg) (''features_'' @ version @ ''.csv'')) = Inr fdf
     \<and> groups_loop (group_step w cfg fdf (filter (\<lambda>r. date_col r = Some 1) fdf)) dfs_props = Inr out"
  using assms unfolding write_data_props_def Let_def
  by (elim and_thenE) (auto split: option.splits)

lemma example_run:
  "write_data_props example_world example_config example_dfs_props ''old''
     = Inr (''features/dfs_props_old.pkl'', [(''applprev'', example_props)])"
  by code_simp





lemma example_train_paths:
  "utils_sort_paths (glob example_world (utils_gen_file_path example_config ''applprev_1_*'' ''train''))
     = Inr [''data/parquet_files/train/train_applprev_1_0.parquet'',
            ''data/parquet_files/train/train_applprev_1_1.parquet'']"
  by code_simp

lemma file_stepE:
  assumes "file_step w cfg fdf sg f st = Inr st'"
  obtains df schema cs entry where
    "read_sample w cfg f = Inr df"
    and "columns_loop fdf sg df schema = Inr cs"
    and "map_of (structure_dict st) f = Some entry"
    and "map_of (structure_dict st')
        = (map_of (structure_dict st))(f \<mapsto> entry\<lparr>s_schema := schema, s_columns_map := mapping cs\<rparr>)"
    and "cols_cat st' = dict_update (cols_cat st) (cols_cat_i cs)"
  using file_step_Inr [OF assms] by (elim exE conjE) (rule that, assumption+)

lemma run_groupE:
  assumes "write_data_props w cfg dfs_props version = Inr (path, out)"
    and "(name, props) \<in> set out"
  obtains fdf st where
    "read_csv w (os_path_join (PATH_FEATURES cfg) (''features_'' @ version @ ''.csv'')) = Inr fdf"
    and "for_each (file_step w cfg fdf (filter (\<lambda>r. source_group r = name) fdf)) (props_paths props)
           \<lparr>structure_dict = fold (\<lambda>i d. AList.update i new_file_structure d) (props_paths props) [],
            columns = [], cols_cat = [], columns_dtypes = []\<rparr> = Inr st"
    and "props_structure props = structure_dict st"
    and "props_columns_cat props = cols_cat st"
proof -
  from write_data_props_Inr [OF assms(1)] obtain fdf where
    csv: "read_csv w (os_path_join (PATH_FEATURES cfg) (''features_'' @ version @ ''.csv'')) = Inr fdf"
    and loop: "groups_loop (group_step w cfg fdf (filter (\<lambda>r. date_col r = Some 1) fdf)) dfs_props = Inr out"
    by (elim exE conjE) (rule that, assumption+)
  from groups_loop_member [OF loop assms(2)] obtain fns where
    g: "group_step w cfg fdf (filter (\<lambda>r. date_col r = Some 1) fdf) name fns = Inr props"
    by (elim exE conjE) (rule that, assumption+)
  from group_step_Inr [OF g] obtain st where
    s: "for_each (file_step w cfg fdf (filter (\<lambda>r. source_group r = name) fdf)) fns
           \<lparr>structure_dict = fold (\<lambda>i d. AList.update i new_file_structure d) fns [],
            columns = [], cols_cat = [], columns_dtypes = []\<rparr> = Inr st"
    and p: "props_paths props = fns"
    and t: "props_structure props = structure_dict st"
    and c: "props_columns_cat props = cols_cat st"
    by (elim exE conjE) (rule that, assumption+)
  show ?thesis
    using csv s t c unfolding p [symmetric] by (rule that)
qed

text \<open>
  Claim C1. In every run that completes, the \<^verbatim>\<open>"paths"\<close> value of every pattern's entry is
  still the empty placeholder it was created with: the globbed and sorted paths are not
  stored.
\<close>

theorem structure_paths_stay_empty:
  assumes "write_data_props w cfg dfs_props version = Inr (path, out)"
    and "(name, props) \<in> set out"
    and "file_name \<in> set (props_paths props)"
  shows "\<exists>entry. map_of (props_structure props) file_name = Some entry
     \<and> s_paths entry = \<lparr>train = EmptyDict, test = PathList []\<rparr>"
proof -
  obtain fdf st where
    csv: "read_csv w (os_path_join (PATH_FEATURES cfg) (''features_'' @ version @ ''.csv'')) = Inr fdf"
    and loop: "for_each (file_step w cfg fdf (filter (\<lambda>r. source_group r = name) fdf)) (props_paths props)
           \<lparr>structure_dict = fold (\<lambda>i d. AList.update i new_file_structure d) (props_paths props) [],
            columns = [], cols_cat = [], columns_dtypes = []\<rparr> = Inr st"
    and str: "props_structure props = structure_dict st"
    and cat: "props_columns_cat props = cols_cat st"
    by (rule run_groupE [OF assms(1,2)])
  define K where "K = (\<lambda>t :: group_state.
      (\<exists>e. map_of (structure_dict t) file_name = Some e)
    \<and> (\<forall>k e. map_of (structure_dict t) k = Some e \<longrightarrow> s_paths e = \<lparr>train = EmptyDict, test = PathList []\<rparr>))"
  have "K st"
    using loop
  proof (rule for_each_preserves)
    have "map_of (fold (\<lambda>i d. AList.update i new_file_structure d) (props_paths props) []) k
        = (if k \<in> set (props_paths props) then Some new_file_structure else None)" for k
      by (simp add: fold_update_lookup)
    moreover have "s_paths new_file_structure = \<lparr>train = EmptyDict, test = PathList []\<rparr>"
      by (simp add: new_file_structure_def)
    ultimately show "K \<lparr>structure_dict = fold (\<lambda>i d. AList.update i new_file_structure d) (props_paths props) [],
            columns = [], cols_cat = [], columns_dtypes = []\<rparr>"
      using assms(3) by (simp add: K_def)
  next
    fix y t t1
    assume k: "K t" and s: "file_step w cfg fdf (filter (\<lambda>r. source_group r = name) fdf) y t = Inr t1"
    from k have kept: "\<forall>k e. map_of (structure_dict t) k = Some e \<longrightarrow> s_paths e = \<lparr>train = EmptyDict, test = PathList []\<rparr>"
      and has: "\<exists>e. map_of (structure_dict t) file_name = Some e"
      by (simp_all add: K_def)
    have a: "\<forall>k e. map_of (structure_dict t1) k = Some e \<longrightarrow> s_paths e = \<lparr>train = EmptyDict, test = PathList []\<rparr>"
      using s kept by (rule file_step_paths_kept)
    have b: "\<exists>e. map_of (structure_dict t1) file_name = Some e"
    proof (cases "y = file_name")
      case True
      obtain df schema and cs :: col_state and entry :: file_structure where
        "read_sample w cfg y = Inr df"
        and "columns_loop fdf (filter (\<lambda>r. source_group r = name) fdf) df schema = Inr cs"
        and "map_of (structure_dict t) y = Some entry"
        and m: "map_of (structure_dict t1)
            = (map_of (structure_dict t))(y \<mapsto> entry\<lparr>s_schema := schema, s_columns_map := mapping cs\<rparr>)"
        and "cols_cat t1 = dict_update (cols_cat t) (cols_cat_i cs)"
        by (rule file_stepE [OF s])
      show ?thesis unfolding m True by simp
    next
      case False
      then have "map_of (structure_dict t1) file_name = map_of (structure_dict t) file_name"
        using file_step_structure_other [OF s] by simp
      then show ?thesis using has by simp
    qed
    show "K t1" unfolding K_def using a b by (rule conjI [rotated])
  qed
  then have "\<exists>e. map_of (structure_dict st) file_name = Some e"
    and all: "\<forall>k e. map_of (structure_dict st) k = Some e \<longrightarrow> s_paths e = \<lparr>train = EmptyDict, test = PathList []\<rparr>"
    by (simp_all add: K_def)
  then obtain e where e: "map_of (structure_dict st) file_name = Some e" by (elim exE)
  then have "s_paths e = \<lparr>train = EmptyDict, test = PathList []\<rparr>" using all by simp
  with e show ?thesis unfolding str by (intro exI conjI)
qed

theorem structure_paths_stay_empty_witness:
  "write_data_props example_world example_config example_dfs_props ''old''
     = Inr (''features/dfs_props_old.pkl'', [(''applprev'', example_props)])
   \<and> (''applprev'', example_props) \<in> set [(''applprev'', example_props)]
   \<and> ''applprev_1_*'' \<in> set (props_paths example_props)
   \<and> utils_sort_paths (glob example_world (utils_gen_file_path example_config ''applprev_1_*'' ''train''))
       = Inr [''data/parquet_files/train/train_applprev_1_0.parquet'',
              ''data/parquet_files/train/train_applprev_1_1.parquet'']
   \<and> (\<exists>entry. map_of (props_structure example_props) ''applprev_1_*'' = Some entry
        \<and> s_paths entry = \<lparr>train = EmptyDict, test = PathList []\<rparr>)"
proof -
  have m: "(''applprev'', example_props) \<in> set [(''applprev'', example_props)]" by simp
  have p: "''applprev_1_*'' \<in> set (props_paths example_props)" by (simp add: example_props_def)
  note t = structure_paths_stay_empty [OF example_run m p]
  show ?thesis
    by (intro conjI) (rule example_run m p example_train_paths t)+
qed









end
